theory Spec2Isabelle
  imports Complex_Main
begin

section \<open>The navigator store\<close>

text \<open>
  The stack component (\<^verbatim>\<open>packages/navigator/src/components/Stack.tsx\<close>) reads the store with
  \<^verbatim>\<open>store.getState()\<close> and changes it through four store actions. The state is a record;
  every function below takes the state and returns the new one.
\<close>

record Screen =
  id_screen :: string
  path :: string

record ScreenInstance =
  id_inst :: string
  screenId :: string
  present :: bool
  as_inst :: string
  nestedRouteCount :: int

text \<open>
  A close promise is \<^verbatim>\<open>{ resolve, popped }\<close>. The handle \<^verbatim>\<open>resolve\<close> is a callback: the model
  keeps the flag in the record and writes every call \<^verbatim>\<open>promise.resolve(null)\<close> to the trace
  \<open>resolveCalls\<close> of the state, under the id whose promise was called.
\<close>

record ScreenInstancePromise =
  popped :: bool

record GlobalState =
  screens :: "Screen option list"
  screenInstances :: "ScreenInstance list"
  screenInstancePtr :: int
  screenInstancePromises :: "string \<rightharpoonup> ScreenInstancePromise"
  resolveCalls :: "string list"

text \<open>
  Modelled from the spec: the initial state of the store (the store module is not among the
  sources). The stack starts empty and the pointer lies in \<open>[-1, length - 1]\<close>, so it is \<open>-1\<close>.
\<close>

definition initialState :: GlobalState where
  "initialState =
     \<lparr>screens = [], screenInstances = [], screenInstancePtr = -1,
      screenInstancePromises = Map.empty, resolveCalls = []\<rparr>"

text \<open>
  Modelled from the spec: the store action \<^verbatim>\<open>insertScreenInstance({ ptr, screenInstance })\<close>
  (the store module is not among the sources). The spec: the new instance is put at position
  \<open>ptr + 1\<close>; an instance is never deleted individually, removal happens only by truncating
  the stack; inserting leaves the pointer as it is; \<open>nestedRouteCount\<close> counts the nested
  routes layered on the instance, none at creation. So the entries at indices up to \<open>ptr\<close>
  are kept, the new instance follows them and the entries after it are cut off.
  The caller passes the four fields \<^verbatim>\<open>id, screenId, present, as\<close>.
\<close>

definition insertScreenInstance ::
    "int \<Rightarrow> string \<Rightarrow> string \<Rightarrow> bool \<Rightarrow> string \<Rightarrow> GlobalState \<Rightarrow> GlobalState" where
  "insertScreenInstance ptr i sid pres as st =
     st\<lparr>screenInstances :=
          take (nat (ptr + 1)) (screenInstances st) @
          [\<lparr>id_inst = i, screenId = sid, present = pres, as_inst = as, nestedRouteCount = 0\<rparr>]\<rparr>"

text \<open>
  Modelled from the spec: the store action \<^verbatim>\<open>mapScreenInstance({ ptr, mapper })\<close> (the store
  module is not among the sources). The spec: a nested-route event changes the counter of the
  instance at the pointer in place and nothing else. Where no instance is at \<open>ptr\<close>, nothing
  is mapped.
\<close>

definition mapScreenInstance ::
    "int \<Rightarrow> (ScreenInstance \<Rightarrow> ScreenInstance) \<Rightarrow> GlobalState \<Rightarrow> GlobalState" where
  "mapScreenInstance ptr mapper st =
     (if 0 \<le> ptr \<and> ptr < int (length (screenInstances st))
      then st\<lparr>screenInstances :=
                (screenInstances st)[nat ptr := mapper (screenInstances st ! nat ptr)]\<rparr>
      else st)"

text \<open>
  Modelled from the spec: the store actions \<^verbatim>\<open>setScreenInstancePtr({ ptr })\<close> and
  \<^verbatim>\<open>increaseScreenInstancePtr()\<close> (the store module is not among the sources): the pointer is
  overwritten, respectively advanced by one.
\<close>

definition setScreenInstancePtr :: "int \<Rightarrow> GlobalState \<Rightarrow> GlobalState" where
  "setScreenInstancePtr ptr st = st\<lparr>screenInstancePtr := ptr\<rparr>"

definition increaseScreenInstancePtr :: "GlobalState \<Rightarrow> GlobalState" where
  "increaseScreenInstancePtr st = st\<lparr>screenInstancePtr := screenInstancePtr st + 1\<rparr>"

section \<open>push, replace and pop\<close>

text \<open>JavaScript's \<^verbatim>\<open>Array.prototype.findIndex\<close>: the first index that satisfies, or \<open>-1\<close>.\<close>

fun findIndex :: "('a \<Rightarrow> bool) \<Rightarrow> 'a list \<Rightarrow> int" where
  "findIndex P [] = -1"
| "findIndex P (x # xs) =
     (if P x then 0 else (let r = findIndex P xs in if r = -1 then -1 else r + 1))"

definition pushScreen :: "string \<Rightarrow> string \<Rightarrow> bool \<Rightarrow> string \<Rightarrow> GlobalState \<Rightarrow> GlobalState" where
  "pushScreen sid i pres as st =
     (let nextPtr = findIndex (\<lambda>screenInstance. id_inst screenInstance = i) (screenInstances st)
      in if nextPtr = -1
         then increaseScreenInstancePtr
                (insertScreenInstance (screenInstancePtr st) i sid pres as st)
         else setScreenInstancePtr nextPtr st)"

definition replaceScreen :: "string \<Rightarrow> string \<Rightarrow> string \<Rightarrow> bool \<Rightarrow> GlobalState \<Rightarrow> GlobalState" where
  "replaceScreen sid i as pres st =
     insertScreenInstance (screenInstancePtr st - 1) i sid pres as st"

text \<open>
  An optional string is truthy in JavaScript when it is there and not empty.
\<close>

fun truthy :: "string option \<Rightarrow> string option" where
  "truthy None = None"
| "truthy (Some s) = (if s = [] then None else Some s)"

text \<open>
  \<^verbatim>\<open>const promise = screenInstancePromises[targetScreenInstanceId]\<close> indexes an object with a
  key that comes from the URL. An ordinary object answers with its own property under the
  key, and otherwise with what it inherits from \<^verbatim>\<open>Object.prototype\<close> under that name: a
  function (for \<^verbatim>\<open>__proto__\<close> the prototype object), which is truthy, has no \<^verbatim>\<open>popped\<close> and
  no \<^verbatim>\<open>resolve\<close>. (The table is created in the store module; the indexing shows an object
  keyed by id.)
\<close>

definition objectPrototypeKeys :: "string list" where
  "objectPrototypeKeys =
     [''constructor'', ''__proto__'', ''hasOwnProperty'', ''isPrototypeOf'',
      ''propertyIsEnumerable'', ''toString'', ''toLocaleString'', ''valueOf'',
      ''__defineGetter__'', ''__defineSetter__'', ''__lookupGetter__'', ''__lookupSetter__'']"

datatype PromiseLookup =
    OwnPromise ScreenInstancePromise
  | InheritedProperty
  | NoProperty

definition lookupPromise :: "GlobalState \<Rightarrow> string \<Rightarrow> PromiseLookup" where
  "lookupPromise st t =
     (case screenInstancePromises st t of
        Some promise \<Rightarrow> OwnPromise promise
      | None \<Rightarrow> if t \<in> set objectPrototypeKeys then InheritedProperty else NoProperty)"

text \<open>
  The errors the component can raise: the one thrown by the activation effect, and the
  \<^verbatim>\<open>TypeError\<close> of calling \<^verbatim>\<open>promise.resolve\<close> where it is not a function. A handler that
  throws leaves the store as it was written up to the throw: the error comes with that
  state.
\<close>

datatype error = OnlyOneNavigatorAllowed | ResolveIsNotAFunction

definition popScreen ::
    "int \<Rightarrow> string option \<Rightarrow> GlobalState \<Rightarrow> (error \<times> GlobalState) + GlobalState" where
  "popScreen depth targetScreenInstanceId st =
     (let screenInstancePtr0 = screenInstancePtr st
      in case truthy targetScreenInstanceId of
           None \<Rightarrow> Inr (setScreenInstancePtr (screenInstancePtr0 - depth) st)
         | Some t \<Rightarrow>
             (case lookupPromise st t of
                NoProperty \<Rightarrow> Inr (setScreenInstancePtr (screenInstancePtr0 - depth) st)
              | OwnPromise promise \<Rightarrow>
                  if \<not> popped promise
                  then Inr (setScreenInstancePtr (screenInstancePtr0 - depth)
                              (st\<lparr>resolveCalls := resolveCalls st @ [t]\<rparr>))
                  else Inr (setScreenInstancePtr (screenInstancePtr0 - depth) st)
              | InheritedProperty \<Rightarrow> Inl (ResolveIsNotAFunction, st)))"

text \<open>The store after a handler has run, whether it returned or threw.\<close>

fun storeAfter :: "(error \<times> GlobalState) + GlobalState \<Rightarrow> GlobalState" where
  "storeAfter (Inl (e, st)) = st"
| "storeAfter (Inr st) = st"

section \<open>History events\<close>

text \<open>
  A location as the handlers use it: the path name, and the two navigator parameters that
  \<^verbatim>\<open>getNavigatorParams\<close> reads from the query string (the helper that parses them is not among
  the sources, so the parsed values are the input).
\<close>

record Location =
  pathname :: string
  screenInstanceId :: "string option"
  present_param :: bool

text \<open>
  \<^verbatim>\<open>Object.values(screens).find((screen) => screen && matchPath(pathname, { exact, path }))\<close>.
  \<^verbatim>\<open>matchPath\<close> belongs to the router library; it is the parameter \<open>mp\<close>, applied to the path
  name and the screen's path pattern.
\<close>

definition matchScreen :: "(string \<Rightarrow> string \<Rightarrow> bool) \<Rightarrow> Location \<Rightarrow> GlobalState \<Rightarrow> Screen option" where
  "matchScreen mp location st =
     (case List.find (\<lambda>screen. case screen of None \<Rightarrow> False
                                | Some sc \<Rightarrow> mp (pathname location) (path sc)) (screens st) of
        Some (Some sc) \<Rightarrow> Some sc
      | _ \<Rightarrow> None)"

definition historyPush :: "(string \<Rightarrow> string \<Rightarrow> bool) \<Rightarrow> Location \<Rightarrow> GlobalState \<Rightarrow> GlobalState" where
  "historyPush mp location st =
     (case (truthy (screenInstanceId location), matchScreen mp location st) of
        (Some i, Some sc) \<Rightarrow>
          pushScreen (id_screen sc) i (present_param location) (pathname location) st
      | _ \<Rightarrow>
          mapScreenInstance (screenInstancePtr st)
            (\<lambda>screenInstance. screenInstance\<lparr>nestedRouteCount := nestedRouteCount screenInstance + 1\<rparr>)
            st)"

definition historyReplace :: "(string \<Rightarrow> string \<Rightarrow> bool) \<Rightarrow> Location \<Rightarrow> GlobalState \<Rightarrow> GlobalState" where
  "historyReplace mp location st =
     (case (truthy (screenInstanceId location), matchScreen mp location st) of
        (Some i, Some sc) \<Rightarrow>
          replaceScreen (id_screen sc) i (pathname location) (present_param location) st
      | _ \<Rightarrow> st)"

text \<open>
  \<^verbatim>\<open>screenInstances[screenInstancePtr]?.nestedRouteCount === 0\<close>: reading outside the array gives
  \<^verbatim>\<open>undefined\<close>, which is not \<open>0\<close>.
\<close>

definition topCountIsZero :: "GlobalState \<Rightarrow> bool" where
  "topCountIsZero st =
     (0 \<le> screenInstancePtr st \<and> screenInstancePtr st < int (length (screenInstances st)) \<and>
      nestedRouteCount (screenInstances st ! nat (screenInstancePtr st)) = 0)"

definition backward ::
    "(string \<Rightarrow> string \<Rightarrow> bool) \<Rightarrow> Location \<Rightarrow> GlobalState \<Rightarrow> (error \<times> GlobalState) + GlobalState" where
  "backward mp location st =
     (case (truthy (screenInstanceId location), matchScreen mp location st) of
        (Some i, Some sc) \<Rightarrow>
          (let nextPtr = findIndex (\<lambda>screenInstance. id_inst screenInstance = i)
                           (screenInstances st)
           in popScreen (screenInstancePtr st - nextPtr) (Some i)
                (mapScreenInstance (screenInstancePtr st)
                   (\<lambda>screenInstance. screenInstance\<lparr>nestedRouteCount := 0\<rparr>) st))
      | _ \<Rightarrow>
          if topCountIsZero st then popScreen 1 None st
          else Inr (mapScreenInstance (screenInstancePtr st)
                 (\<lambda>screenInstance. screenInstance\<lparr>nestedRouteCount := nestedRouteCount screenInstance - 1\<rparr>)
                 st))"

definition forward :: "(string \<Rightarrow> string \<Rightarrow> bool) \<Rightarrow> Location \<Rightarrow> GlobalState \<Rightarrow> GlobalState" where
  "forward mp location st =
     (case (truthy (screenInstanceId location), matchScreen mp location st) of
        (Some i, Some sc) \<Rightarrow>
          pushScreen (id_screen sc) i (present_param location) (pathname location) st
      | _ \<Rightarrow>
          mapScreenInstance (screenInstancePtr st)
            (\<lambda>screenInstance. screenInstance\<lparr>nestedRouteCount := nestedRouteCount screenInstance + 1\<rparr>)
            st)"

text \<open>
  A stack item is shown as entered (\<^verbatim>\<open>in={props.screenInstanceIndex <= screenInstancePtr}\<close>)
  when its index is not above the pointer.
\<close>

definition stackItemIn :: "nat \<Rightarrow> GlobalState \<Rightarrow> bool" where
  "stackItemIn screenInstanceIndex st = (int screenInstanceIndex \<le> screenInstancePtr st)"

section \<open>Sequences of stack operations\<close>

text \<open>
  \<^verbatim>\<open>pushScreen\<close>, \<^verbatim>\<open>replaceScreen\<close> and \<^verbatim>\<open>popScreen\<close> are closures of the component. The first
  two are taken with any arguments; \<^verbatim>\<open>popScreen\<close> has its two calls in the backward handler
  and runs as that handler calls it. The four history handlers are operations too, since
  the nested routes they count decide which pop a backward event makes.
\<close>

datatype StackOp =
    Push string string bool string
  | Replace string string string bool
  | PushObserved Location
  | ReplaceObserved Location
  | PopBackward Location
  | PopForward Location

fun applyOp :: "(string \<Rightarrow> string \<Rightarrow> bool) \<Rightarrow> StackOp \<Rightarrow> GlobalState \<Rightarrow> GlobalState" where
  "applyOp mp (Push sid i pres as) st = pushScreen sid i pres as st"
| "applyOp mp (Replace sid i as pres) st = replaceScreen sid i as pres st"
| "applyOp mp (PushObserved location) st = historyPush mp location st"
| "applyOp mp (ReplaceObserved location) st = historyReplace mp location st"
| "applyOp mp (PopBackward location) st = storeAfter (backward mp location st)"
| "applyOp mp (PopForward location) st = forward mp location st"

fun runOps :: "(string \<Rightarrow> string \<Rightarrow> bool) \<Rightarrow> StackOp list \<Rightarrow> GlobalState \<Rightarrow> GlobalState" where
  "runOps mp [] st = st"
| "runOps mp (op # ops) st = runOps mp ops (applyOp mp op st)"

text \<open>The pointer is \<open>-1\<close> or the index of an entry.\<close>

definition ptrInBounds :: "GlobalState \<Rightarrow> bool" where
  "ptrInBounds st =
     (-1 \<le> screenInstancePtr st \<and> screenInstancePtr st \<le> int (length (screenInstances st)) - 1)"

section \<open>Activation of the navigator\<close>

text \<open>
  The page as the activation effect sees it: the flag \<^verbatim>\<open>window.__KARROTFRAME__\<close> (declared
  optional, so it may be undefined) and the URLs handed to \<^verbatim>\<open>history.replace\<close>. Where
  \<^verbatim>\<open>window\<close> itself is undefined there is no page.
\<close>

record Window =
  KARROTFRAME :: "bool option"
  historyReplaced :: "string list"

text \<open>
  The effect returns at once without a window, throws when the flag is set, and otherwise
  sets the flag and replaces the URL by \<open>url\<close> (the path with the fresh instance id in the
  query string, built by the caller's \<^verbatim>\<open>uid()\<close>).
\<close>

fun activate :: "string \<Rightarrow> Window option \<Rightarrow> error + Window option" where
  "activate url None = Inr None"
| "activate url (Some w) =
     (if KARROTFRAME w = Some True then Inl OnlyOneNavigatorAllowed
      else Inr (Some (w\<lparr>KARROTFRAME := Some True,
                        historyReplaced := historyReplaced w @ [url]\<rparr>)))"

text \<open>The clean-up function that a completed activation leaves behind.\<close>

fun teardown :: "Window option \<Rightarrow> Window option" where
  "teardown None = None"
| "teardown (Some w) = Some (w\<lparr>KARROTFRAME := Some False\<rparr>)"

section \<open>Touch handlers of the tabs\<close>

record TouchEvent =
  clientX :: real
  clientY :: real

datatype Action =
    TOUCH_START real real
  | TOUCH_MOVE real real TouchEvent
  | TOUCH_END

datatype Gesture =
    idle
  | touch_started real real
  | swipe_started real TouchEvent

record TabsState =
  gesture :: Gesture
  tabCount :: nat
  activeTabIndex :: nat

text \<open>The state that \<^verbatim>\<open>makeState\<close> is given when the effect runs.\<close>

definition makeState :: "nat \<Rightarrow> nat \<Rightarrow> TabsState" where
  "makeState n a = \<lparr>gesture = idle, tabCount = n, activeTabIndex = a\<rparr>"

text \<open>The three listeners; each yields the action it dispatches.\<close>

definition onTouchStart :: "bool \<Rightarrow> TouchEvent \<Rightarrow> Action" where
  "onTouchStart isSwipeDisabled e =
     (if isSwipeDisabled then TOUCH_END else TOUCH_START (clientX e) (clientY e))"

definition onTouchMove :: "bool \<Rightarrow> TouchEvent \<Rightarrow> Action" where
  "onTouchMove isSwipeDisabled e =
     (if isSwipeDisabled then TOUCH_END else TOUCH_MOVE (clientX e) (clientY e) e)"

definition onTouchEnd :: Action where
  "onTouchEnd = TOUCH_END"

text \<open>
  Modelled from the spec: the reducer behind \<^verbatim>\<open>dispatch\<close> (\<^verbatim>\<open>Tabs.state\<close> is not among the
  sources). The spec: touch-end resets to \<open>idle\<close> from any state; a touch-start leaves \<open>idle\<close>
  for \<open>touch_started\<close>; a horizontal drag beyond the directional threshold while in
  \<open>touch_started\<close> enters \<open>swipe_started\<close> with the horizontal delta, a vertical one is
  ignored; the machine itself does not change the tab index. The threshold test is the
  parameter \<open>horizontal\<close>, applied to the two deltas. Where the spec names no transition the
  state stays.
\<close>

fun reducer :: "(real \<Rightarrow> real \<Rightarrow> bool) \<Rightarrow> TabsState \<Rightarrow> Action \<Rightarrow> TabsState" where
  "reducer horizontal s TOUCH_END = s\<lparr>gesture := idle\<rparr>"
| "reducer horizontal s (TOUCH_START x y) =
     (case gesture s of idle \<Rightarrow> s\<lparr>gesture := touch_started x y\<rparr> | _ \<Rightarrow> s)"
| "reducer horizontal s (TOUCH_MOVE x y e) =
     (case gesture s of
        touch_started x0 y0 \<Rightarrow>
          if horizontal (x - x0) (y - y0) then s\<lparr>gesture := swipe_started (x - x0) e\<rparr> else s
      | _ \<Rightarrow> s)"

text \<open>The touch events the element delivers, and the listener each one reaches.\<close>

datatype DomEvent = touchstart TouchEvent | touchmove TouchEvent | touchend

fun listener :: "bool \<Rightarrow> DomEvent \<Rightarrow> Action" where
  "listener isSwipeDisabled (touchstart e) = onTouchStart isSwipeDisabled e"
| "listener isSwipeDisabled (touchmove e) = onTouchMove isSwipeDisabled e"
| "listener isSwipeDisabled touchend = onTouchEnd"

text \<open>The states the machine goes through while it handles a list of events, in order.\<close>

fun statesAlong :: "(real \<Rightarrow> real \<Rightarrow> bool) \<Rightarrow> bool \<Rightarrow> TabsState \<Rightarrow> DomEvent list \<Rightarrow> TabsState list" where
  "statesAlong horizontal isSwipeDisabled s [] = []"
| "statesAlong horizontal isSwipeDisabled s (ev # evs) =
     (let s' = reducer horizontal s (listener isSwipeDisabled ev)
      in s' # statesAlong horizontal isSwipeDisabled s' evs)"

fun isSwipeStarted :: "Gesture \<Rightarrow> bool" where
  "isSwipeStarted (swipe_started dx e) = True"
| "isSwipeStarted _ = False"

section \<open>Concrete stacks\<close>

text \<open>Two screens, two instances and the stacks of the scenarios, used to run the model.\<close>

definition exampleScreens :: "Screen option list" where
  "exampleScreens =
     [Some \<lparr>id_screen = ''home'', path = ''/''\<rparr>,
      Some \<lparr>id_screen = ''detail'', path = ''/detail''\<rparr>]"

definition instA :: ScreenInstance where
  "instA = \<lparr>id_inst = ''a'', screenId = ''home'', present = False, as_inst = ''/'',
            nestedRouteCount = 0\<rparr>"

definition instB :: ScreenInstance where
  "instB = \<lparr>id_inst = ''b'', screenId = ''detail'', present = False, as_inst = ''/detail'',
            nestedRouteCount = 0\<rparr>"

definition stackA :: GlobalState where
  "stackA = initialState\<lparr>screens := exampleScreens, screenInstances := [instA],
                         screenInstancePtr := 0\<rparr>"

definition stackAB :: GlobalState where
  "stackAB = initialState\<lparr>screens := exampleScreens, screenInstances := [instA, instB],
                          screenInstancePtr := 1\<rparr>"

definition locationA :: Location where
  "locationA = \<lparr>pathname = ''/'', screenInstanceId = Some ''a'', present_param = False\<rparr>"

text \<open>Exact matching of a path against a pattern without parameters.\<close>

definition exactPath :: "string \<Rightarrow> string \<Rightarrow> bool" where
  "exactPath p pattern = (p = pattern)"

text \<open>A URL inside the detail screen that no screen is registered for, B's URL, and the URL
  of an instance that is not in the stack.\<close>

definition nestedLocation :: Location where
  "nestedLocation = \<lparr>pathname = ''/detail/tab'', screenInstanceId = None, present_param = False\<rparr>"

definition locationB :: Location where
  "locationB = \<lparr>pathname = ''/detail'', screenInstanceId = Some ''b'', present_param = False\<rparr>"

definition locationGone :: Location where
  "locationGone = \<lparr>pathname = ''/'', screenInstanceId = Some ''z'', present_param = False\<rparr>"

text \<open>Two nested routes on A, then B is pushed, then one nested route on B.\<close>

definition nestedAB :: GlobalState where
  "nestedAB =
     historyPush exactPath nestedLocation
       (historyPush exactPath locationB
          (historyPush exactPath nestedLocation
             (historyPush exactPath nestedLocation stackA)))"

text \<open>
  The URL of the home screen with the instance id \<open>constructor\<close>, a name that every
  ordinary object inherits.
\<close>

definition locationConstructor :: Location where
  "locationConstructor =
     \<lparr>pathname = ''/'', screenInstanceId = Some ''constructor'', present_param = False\<rparr>"

text \<open>The stack \<open>[A, B]\<close> after a replace that names A's id again: two entries, one id.\<close>

definition duplicateAA :: GlobalState where
  "duplicateAA = replaceScreen ''home'' ''a'' ''/'' False stackAB"

text \<open>
  Pushes, a replace, nested routes and backward events, one of them for an id that is not
  in the stack.
\<close>

definition exampleOps :: "StackOp list" where
  "exampleOps =
     [Push ''home'' ''a'' False ''/'', PushObserved locationB, PushObserved nestedLocation,
      PopBackward nestedLocation, PopBackward locationA, Replace ''home'' ''c'' ''/'' False,
      PopForward locationB, PopBackward locationGone]"

text \<open>A page on which no navigator has run, and one on which a navigator is active.\<close>

definition freshWindow :: Window where
  "freshWindow = \<lparr>KARROTFRAME = None, historyReplaced = []\<rparr>"

definition activeWindow :: Window where
  "activeWindow = \<lparr>KARROTFRAME = Some True, historyReplaced = [''/?_si=a'']\<rparr>"

text \<open>A horizontal drag, and a threshold test that takes it for a swipe.\<close>

definition exampleTouches :: "DomEvent list" where
  "exampleTouches =
     [touchstart \<lparr>clientX = 0, clientY = 0\<rparr>, touchmove \<lparr>clientX = 80, clientY = 0\<rparr>,
      touchmove \<lparr>clientX = 120, clientY = 3\<rparr>, touchend]"

definition exampleHorizontal :: "real \<Rightarrow> real \<Rightarrow> bool" where
  "exampleHorizontal dx dy = (\<bar>dx\<bar> > 10 \<and> \<bar>dx\<bar> > \<bar>dy\<bar>)"

section \<open>Facts about \<open>findIndex\<close>\<close>

lemma findIndex_lower: "-1 \<le> findIndex P xs"
  by (induction xs) (auto simp: Let_def)

lemma findIndex_upper: "findIndex P xs < int (length xs)"
  by (induction xs) (auto simp: Let_def)

lemma findIndex_absent: "findIndex P xs = -1 \<longleftrightarrow> (\<forall>x \<in> set xs. \<not> P x)"
proof (induction xs)
  case Nil
  show ?case by simp
next
  case (Cons x xs)
  have "0 \<le> findIndex P xs + 1" using findIndex_lower [of P xs] by simp
  then show ?case using Cons by (auto simp: Let_def)
qed

lemma findIndex_holds: "findIndex P xs \<noteq> -1 \<Longrightarrow> P (xs ! nat (findIndex P xs))"
proof (induction xs)
  case Nil
  then show ?case by simp
next
  case (Cons x xs)
  show ?case
  proof (cases "P x")
    case True
    then show ?thesis by simp
  next
    case False
    with Cons.prems have ne: "findIndex P xs \<noteq> -1" by (auto simp: Let_def)
    have "0 \<le> findIndex P xs" using findIndex_lower [of P xs] ne by linarith
    then have "nat (findIndex P xs + 1) = Suc (nat (findIndex P xs))" by simp
    with False ne Cons.IH show ?thesis by (simp add: Let_def)
  qed
qed

lemma findIndex_at:
  "n < length xs \<Longrightarrow> P (xs ! n) \<Longrightarrow> (\<forall>j < n. \<not> P (xs ! j)) \<Longrightarrow> findIndex P xs = int n"
proof (induction xs arbitrary: n)
  case Nil
  then show ?case by simp
next
  case (Cons x xs)
  show ?case
  proof (cases n)
    case 0
    with Cons.prems show ?thesis by simp
  next
    case (Suc m)
    from Cons.prems Suc have nx: "\<not> P x" by force
    from Cons.prems Suc have "\<forall>j < m. \<not> P (xs ! j)" by force
    with Cons.prems Suc Cons.IH [of m] have "findIndex P xs = int m" by simp
    with nx Suc show ?thesis by (simp add: Let_def)
  qed
qed

lemma findIndex_distinct:
  assumes "distinct (map f xs)" and "n < length xs"
  shows "findIndex (\<lambda>x. f x = f (xs ! n)) xs = int n"
proof (rule findIndex_at)
  show "n < length xs" by fact
  show "f (xs ! n) = f (xs ! n)" by simp
  show "\<forall>j<n. f (xs ! j) \<noteq> f (xs ! n)"
  proof (intro allI impI)
    fix j assume "j < n"
    then have "j < length (map f xs)" "n < length (map f xs)" "j \<noteq> n"
      using assms(2) by simp_all
    with assms(1) have "map f xs ! j \<noteq> map f xs ! n"
      using nth_eq_iff_index_eq by blast
    with assms(2) \<open>j < n\<close> show "f (xs ! j) \<noteq> f (xs ! n)" by simp
  qed
qed

section \<open>push\<close>

lemma pushScreen_found:
  assumes "findIndex (\<lambda>s. id_inst s = i) (screenInstances st) \<noteq> -1"
  shows "pushScreen sid i pres as st =
           setScreenInstancePtr (findIndex (\<lambda>s. id_inst s = i) (screenInstances st)) st"
  using assms by (simp add: pushScreen_def Let_def)

lemma pushScreen_fresh:
  assumes "findIndex (\<lambda>s. id_inst s = i) (screenInstances st) = -1"
  shows "pushScreen sid i pres as st =
           increaseScreenInstancePtr (insertScreenInstance (screenInstancePtr st) i sid pres as st)"
  using assms by (simp add: pushScreen_def Let_def)

text \<open>
  Claim C1. Pushing an id that is already in the stack leaves the stack (contents and
  length) as it is and sets the pointer to the index of the instance with that id, the
  first one that \<open>findIndex\<close> meets. Pushing an id that is not in the stack advances the
  pointer by exactly one, and, the pointer being within its bounds, the new instance is at
  index pointer + 1 behind the unchanged entries up to the pointer.
\<close>

theorem pushScreen_idempotent_or_insert:
  fixes st :: GlobalState and sid i as :: string and pres :: bool
  defines "st' \<equiv> pushScreen sid i pres as st"
  defines "p \<equiv> screenInstancePtr st"
  defines "new \<equiv> \<lparr>id_inst = i, screenId = sid, present = pres, as_inst = as, nestedRouteCount = 0\<rparr>"
  shows "(i \<in> id_inst ` set (screenInstances st) \<longrightarrow>
            screenInstances st' = screenInstances st \<and>
            length (screenInstances st') = length (screenInstances st) \<and>
            0 \<le> screenInstancePtr st' \<and>
            screenInstancePtr st' < int (length (screenInstances st)) \<and>
            id_inst (screenInstances st ! nat (screenInstancePtr st')) = i \<and>
            screenInstancePtr st' = findIndex (\<lambda>s. id_inst s = i) (screenInstances st)) \<and>
         (i \<notin> id_inst ` set (screenInstances st) \<longrightarrow>
            screenInstancePtr st' = p + 1 \<and>
            (ptrInBounds st \<longrightarrow>
               screenInstances st' ! nat (p + 1) = new \<and>
               length (screenInstances st') = nat (p + 1) + 1 \<and>
               take (nat (p + 1)) (screenInstances st') = take (nat (p + 1)) (screenInstances st)))"
proof (intro conjI impI)
  let ?k = "findIndex (\<lambda>s. id_inst s = i) (screenInstances st)"
  {
    assume "i \<in> id_inst ` set (screenInstances st)"
    then have ne: "?k \<noteq> -1" by (auto simp: findIndex_absent)
    then have eq: "st' = setScreenInstancePtr ?k st"
      unfolding st'_def by (rule pushScreen_found)
    show "screenInstances st' = screenInstances st"
      by (simp add: eq setScreenInstancePtr_def)
    then show "length (screenInstances st') = length (screenInstances st)" by simp
    show "screenInstancePtr st' = ?k" by (simp add: eq setScreenInstancePtr_def)
    then show "0 \<le> screenInstancePtr st'"
      using findIndex_lower [of "\<lambda>s. id_inst s = i" "screenInstances st"] ne by linarith
    show "screenInstancePtr st' < int (length (screenInstances st))"
      using \<open>screenInstancePtr st' = ?k\<close>
        findIndex_upper [of "\<lambda>s. id_inst s = i" "screenInstances st"] by simp
    show "id_inst (screenInstances st ! nat (screenInstancePtr st')) = i"
      using \<open>screenInstancePtr st' = ?k\<close> findIndex_holds [OF ne] by simp
  }
  {
    assume "i \<notin> id_inst ` set (screenInstances st)"
    then have "?k = -1" by (auto simp: findIndex_absent)
    then have eq: "st' = increaseScreenInstancePtr (insertScreenInstance p i sid pres as st)"
      unfolding st'_def p_def by (rule pushScreen_fresh)
    show "screenInstancePtr st' = p + 1"
      by (simp add: eq increaseScreenInstancePtr_def insertScreenInstance_def p_def)
    have stack: "screenInstances st' = take (nat (p + 1)) (screenInstances st) @ [new]"
      by (simp add: eq increaseScreenInstancePtr_def insertScreenInstance_def new_def)
    {
      assume "ptrInBounds st"
      then have "nat (p + 1) \<le> length (screenInstances st)"
        unfolding ptrInBounds_def p_def by linarith
      then have len: "length (take (nat (p + 1)) (screenInstances st)) = nat (p + 1)"
        by simp
      show "screenInstances st' ! nat (p + 1) = new"
        using len by (simp add: stack nth_append)
      show "length (screenInstances st') = nat (p + 1) + 1"
        using len by (simp add: stack)
      show "take (nat (p + 1)) (screenInstances st') = take (nat (p + 1)) (screenInstances st)"
        using len by (simp add: stack)
    }
  }
qed

text \<open>
  The scenario of the spec and its idempotent twin: on the stack \<open>[A]\<close> with pointer 0,
  pushing \<open>a\<close> again keeps the stack and the pointer, pushing \<open>b\<close> gives \<open>[A, B]\<close> with
  pointer 1.
\<close>

theorem pushScreen_idempotent_or_insert_witness:
  "''a'' \<in> id_inst ` set (screenInstances stackA) \<and>
   screenInstances (pushScreen ''home'' ''a'' False ''/'' stackA) = [instA] \<and>
   screenInstancePtr (pushScreen ''home'' ''a'' False ''/'' stackA) = 0 \<and>
   ''b'' \<notin> id_inst ` set (screenInstances stackA) \<and> ptrInBounds stackA \<and>
   screenInstancePtr (pushScreen ''detail'' ''b'' False ''/detail'' stackA) = 1 \<and>
   screenInstances (pushScreen ''detail'' ''b'' False ''/detail'' stackA) ! 1 = instB \<and>
   length (screenInstances (pushScreen ''detail'' ''b'' False ''/detail'' stackA)) = 2"
  using pushScreen_idempotent_or_insert [of "''a''" stackA "''home''" False "''/''"]
    pushScreen_idempotent_or_insert [of "''b''" stackA "''detail''" False "''/detail''"]
  by (simp add: stackA_def initialState_def instA_def instB_def ptrInBounds_def)

section \<open>What the store actions leave alone\<close>

lemma insertScreenInstance_sel:
  "screenInstancePtr (insertScreenInstance q i sid pres as st) = screenInstancePtr st"
  "screenInstances (insertScreenInstance q i sid pres as st) =
     take (nat (q + 1)) (screenInstances st) @
     [\<lparr>id_inst = i, screenId = sid, present = pres, as_inst = as, nestedRouteCount = 0\<rparr>]"
  "screens (insertScreenInstance q i sid pres as st) = screens st"
  "screenInstancePromises (insertScreenInstance q i sid pres as st) = screenInstancePromises st"
  "resolveCalls (insertScreenInstance q i sid pres as st) = resolveCalls st"
  by (simp_all add: insertScreenInstance_def)

lemma mapScreenInstance_sel:
  "screenInstancePtr (mapScreenInstance q f st) = screenInstancePtr st"
  "length (screenInstances (mapScreenInstance q f st)) = length (screenInstances st)"
  "screens (mapScreenInstance q f st) = screens st"
  "screenInstancePromises (mapScreenInstance q f st) = screenInstancePromises st"
  "resolveCalls (mapScreenInstance q f st) = resolveCalls st"
  by (simp_all add: mapScreenInstance_def)

lemma mapScreenInstance_nth:
  "j < length (screenInstances st) \<Longrightarrow>
   screenInstances (mapScreenInstance q f st) ! j =
     (if int j = q then f (screenInstances st ! j) else screenInstances st ! j)"
  by (auto simp: mapScreenInstance_def nth_list_update)

lemma lookupPromise_map: "lookupPromise (mapScreenInstance q f st) t = lookupPromise st t"
  by (simp add: lookupPromise_def mapScreenInstance_sel)

lemma popScreen_no_target:
  "truthy target = None \<Longrightarrow>
   popScreen d target st = Inr (setScreenInstancePtr (screenInstancePtr st - d) st)"
  by (simp add: popScreen_def)

lemma popScreen_throws:
  "truthy target = Some t \<Longrightarrow> lookupPromise st t = InheritedProperty \<Longrightarrow>
   popScreen d target st = Inl (ResolveIsNotAFunction, st)"
  by (simp add: popScreen_def)

lemma popScreen_returns:
  assumes "truthy target = Some t" and "lookupPromise st t \<noteq> InheritedProperty"
  shows "popScreen d target st = Inr (storeAfter (popScreen d target st))"
    and "screenInstancePtr (storeAfter (popScreen d target st)) = screenInstancePtr st - d"
proof -
  show "popScreen d target st = Inr (storeAfter (popScreen d target st))"
    using assms
    by (cases "lookupPromise st t") (simp_all add: popScreen_def Let_def)
  show "screenInstancePtr (storeAfter (popScreen d target st)) = screenInstancePtr st - d"
    using assms
    by (cases "lookupPromise st t")
      (simp_all add: popScreen_def setScreenInstancePtr_def Let_def)
qed

lemma popScreen_store:
  "screenInstances (storeAfter (popScreen d target st)) = screenInstances st"
  "screens (storeAfter (popScreen d target st)) = screens st"
  "screenInstancePromises (storeAfter (popScreen d target st)) = screenInstancePromises st"
  "screenInstancePtr (storeAfter (popScreen d target st)) = screenInstancePtr st - d \<or>
   screenInstancePtr (storeAfter (popScreen d target st)) = screenInstancePtr st"
  by (simp_all add: popScreen_def setScreenInstancePtr_def Let_def
      split: option.splits PromiseLookup.splits)

lemma backward_matched:
  assumes "truthy (screenInstanceId location) = Some i"
    and "matchScreen mp location st = Some sc"
  shows "backward mp location st =
           popScreen (screenInstancePtr st -
                        findIndex (\<lambda>s. id_inst s = i) (screenInstances st)) (Some i)
             (mapScreenInstance (screenInstancePtr st) (\<lambda>s. s\<lparr>nestedRouteCount := 0\<rparr>) st)"
  using assms by (simp add: backward_def Let_def)

lemma backward_unmatched:
  assumes "truthy (screenInstanceId location) = None \<or> matchScreen mp location st = None"
  shows "backward mp location st =
           (if topCountIsZero st then popScreen 1 None st
            else Inr (mapScreenInstance (screenInstancePtr st)
                   (\<lambda>s. s\<lparr>nestedRouteCount := nestedRouteCount s - 1\<rparr>) st))"
  using assms by (auto simp: backward_def split: option.splits)

lemma truthy_Some: "truthy x = Some t \<Longrightarrow> truthy (Some t) = Some t"
  by (cases x) (auto split: if_splits)

lemma historyPush_unmatched:
  assumes "matchScreen mp location st = None"
  shows "historyPush mp location st =
           mapScreenInstance (screenInstancePtr st)
             (\<lambda>s. s\<lparr>nestedRouteCount := nestedRouteCount s + 1\<rparr>) st"
  using assms by (simp add: historyPush_def split: option.splits)

section \<open>Backward events\<close>




text \<open>
  A backward event whose URL matches a registered screen and names an id that is not in
  the stack finds the index \<open>-1\<close> and pops with depth \<open>p + 1\<close>. Where the lookup of the id
  in the promise table does not end on an inherited property the pop returns with the
  pointer at \<open>-1\<close>, the stack keeps its length and no entry of it is shown as entered.
\<close>

lemma backward_absent_id:
  fixes st :: GlobalState and mp :: "string \<Rightarrow> string \<Rightarrow> bool" and location :: Location
  defines "p \<equiv> screenInstancePtr st"
  defines "st' \<equiv> storeAfter (backward mp location st)"
  assumes idt: "truthy (screenInstanceId location) = Some i"
    and ms: "matchScreen mp location st = Some sc"
    and absent: "i \<notin> id_inst ` set (screenInstances st)"
  shows "findIndex (\<lambda>s. id_inst s = i) (screenInstances st) = -1"
    and "backward mp location st =
           popScreen (p + 1) (Some i) (mapScreenInstance p (\<lambda>s. s\<lparr>nestedRouteCount := 0\<rparr>) st)"
    and "lookupPromise st i \<noteq> InheritedProperty \<Longrightarrow>
           backward mp location st = Inr st' \<and> screenInstancePtr st' = -1 \<and>
           length (screenInstances st') = length (screenInstances st) \<and>
           (\<forall>j < length (screenInstances st'). \<not> stackItemIn j st')"
    and "lookupPromise st i = InheritedProperty \<Longrightarrow>
           backward mp location st =
             Inl (ResolveIsNotAFunction, mapScreenInstance p (\<lambda>s. s\<lparr>nestedRouteCount := 0\<rparr>) st) \<and>
           screenInstancePtr st' = p"
proof -
  let ?m = "mapScreenInstance p (\<lambda>s. s\<lparr>nestedRouteCount := 0\<rparr>) st"
  show k: "findIndex (\<lambda>s. id_inst s = i) (screenInstances st) = -1"
    using absent by (auto simp: findIndex_absent)
  show eq: "backward mp location st = popScreen (p + 1) (Some i) ?m"
    unfolding p_def using backward_matched [OF idt ms] k by simp
  have ti: "truthy (Some i) = Some i" using idt by (rule truthy_Some)
  {
    assume "lookupPromise st i \<noteq> InheritedProperty"
    then have lk: "lookupPromise ?m i \<noteq> InheritedProperty"
      by (simp add: lookupPromise_map)
    have ret: "backward mp location st = Inr st'"
      unfolding st'_def eq using popScreen_returns(1) [OF ti lk] .
    have ptr: "screenInstancePtr st' = -1"
      unfolding st'_def eq using popScreen_returns(2) [OF ti lk, of "p + 1"]
      by (simp add: mapScreenInstance_sel p_def)
    have len: "length (screenInstances st') = length (screenInstances st)"
      unfolding st'_def eq by (simp add: popScreen_store mapScreenInstance_sel)
    have "\<forall>j < length (screenInstances st'). \<not> stackItemIn j st'"
      by (simp add: stackItemIn_def ptr)
    with ret ptr len show "backward mp location st = Inr st' \<and> screenInstancePtr st' = -1 \<and>
           length (screenInstances st') = length (screenInstances st) \<and>
           (\<forall>j < length (screenInstances st'). \<not> stackItemIn j st')" by blast
  }
  {
    assume "lookupPromise st i = InheritedProperty"
    then have lk: "lookupPromise ?m i = InheritedProperty"
      by (simp add: lookupPromise_map)
    have thr: "backward mp location st = Inl (ResolveIsNotAFunction, ?m)"
      unfolding eq using popScreen_throws [OF ti lk] .
    then show "backward mp location st = Inl (ResolveIsNotAFunction, ?m) \<and> screenInstancePtr st' = p"
      by (simp add: st'_def mapScreenInstance_sel p_def)
  }
qed

text \<open>
  Claim C10, at a failing input. On \<open>[A, B]\<close> with pointer 1, a backward event on the home
  path names the id \<open>constructor\<close>: the path matches a registered screen and the id is not
  in the stack. The lookup in the promise table ends on the inherited property, the call
  of its \<open>resolve\<close> throws, and the pointer is never set: it stays at 1, not \<open>-1\<close>, and both
  entries are still shown as entered.
\<close>

theorem backward_inherited_key_throws:
  "0 \<le> screenInstancePtr stackAB \<and>
   truthy (screenInstanceId locationConstructor) = Some ''constructor'' \<and>
   matchScreen exactPath locationConstructor stackAB = Some \<lparr>id_screen = ''home'', path = ''/''\<rparr> \<and>
   ''constructor'' \<notin> id_inst ` set (screenInstances stackAB) \<and>
   backward exactPath locationConstructor stackAB = Inl (ResolveIsNotAFunction, stackAB) \<and>
   screenInstancePtr (storeAfter (backward exactPath locationConstructor stackAB)) = 1 \<and>
   screenInstancePtr (storeAfter (backward exactPath locationConstructor stackAB)) \<noteq> -1 \<and>
   stackItemIn 0 (storeAfter (backward exactPath locationConstructor stackAB)) \<and>
   stackItemIn 1 (storeAfter (backward exactPath locationConstructor stackAB))"
  by (simp add: backward_def matchScreen_def exactPath_def locationConstructor_def stackAB_def
      initialState_def exampleScreens_def popScreen_def lookupPromise_def
      objectPrototypeKeys_def mapScreenInstance_def setScreenInstancePtr_def stackItemIn_def
      instA_def instB_def Let_def)

section \<open>Nested routes\<close>

text \<open>
  Claim C5. A history-push event whose URL matches no registered screen leaves the length
  of the stack, the pointer and every instance other than the one at the pointer as they
  are, and the instance at the pointer differs only in its \<open>nestedRouteCount\<close>, which is
  larger by exactly 1.
\<close>

theorem historyPush_nested_route:
  fixes st :: GlobalState and mp :: "string \<Rightarrow> string \<Rightarrow> bool" and location :: Location
  defines "st' \<equiv> historyPush mp location st"
  defines "p \<equiv> screenInstancePtr st"
  assumes "matchScreen mp location st = None"
  shows "length (screenInstances st') = length (screenInstances st) \<and>
         screenInstancePtr st' = p \<and>
         (\<forall>j < length (screenInstances st). int j \<noteq> p \<longrightarrow>
            screenInstances st' ! j = screenInstances st ! j) \<and>
         (0 \<le> p \<and> p < int (length (screenInstances st)) \<longrightarrow>
            nestedRouteCount (screenInstances st' ! nat p) =
              nestedRouteCount (screenInstances st ! nat p) + 1 \<and>
            screenInstances st' ! nat p =
              (screenInstances st ! nat p)
                \<lparr>nestedRouteCount := nestedRouteCount (screenInstances st ! nat p) + 1\<rparr>)"
proof -
  have eq: "st' = mapScreenInstance p (\<lambda>s. s\<lparr>nestedRouteCount := nestedRouteCount s + 1\<rparr>) st"
    unfolding st'_def p_def using assms(3) by (rule historyPush_unmatched)
  have a: "length (screenInstances st') = length (screenInstances st)"
    and b: "screenInstancePtr st' = p"
    by (simp_all add: eq mapScreenInstance_sel p_def)
  have c: "\<forall>j < length (screenInstances st). int j \<noteq> p \<longrightarrow>
            screenInstances st' ! j = screenInstances st ! j"
    by (simp add: eq mapScreenInstance_nth)
  have d: "0 \<le> p \<and> p < int (length (screenInstances st)) \<longrightarrow>
            nestedRouteCount (screenInstances st' ! nat p) =
              nestedRouteCount (screenInstances st ! nat p) + 1 \<and>
            screenInstances st' ! nat p =
              (screenInstances st ! nat p)
                \<lparr>nestedRouteCount := nestedRouteCount (screenInstances st ! nat p) + 1\<rparr>"
  proof
    assume h: "0 \<le> p \<and> p < int (length (screenInstances st))"
    then have "nat p < length (screenInstances st)" by linarith
    then have "screenInstances st' ! nat p =
        (screenInstances st ! nat p)\<lparr>nestedRouteCount := nestedRouteCount (screenInstances st ! nat p) + 1\<rparr>"
      using h by (simp add: eq mapScreenInstance_nth)
    then show "nestedRouteCount (screenInstances st' ! nat p) =
              nestedRouteCount (screenInstances st ! nat p) + 1 \<and>
            screenInstances st' ! nat p =
              (screenInstances st ! nat p)
                \<lparr>nestedRouteCount := nestedRouteCount (screenInstances st ! nat p) + 1\<rparr>"
      by simp
  qed
  from a b c d show ?thesis by blast
qed

text \<open>On \<open>[A, B]\<close> with pointer 1 a nested route counts on B alone.\<close>

theorem historyPush_nested_route_witness:
  "matchScreen exactPath nestedLocation stackAB = None \<and>
   screenInstancePtr (historyPush exactPath nestedLocation stackAB) = 1 \<and>
   screenInstances (historyPush exactPath nestedLocation stackAB) =
     [instA, instB\<lparr>nestedRouteCount := 1\<rparr>]"
proof -
  have m: "matchScreen exactPath nestedLocation stackAB = None"
    by (simp add: matchScreen_def exactPath_def nestedLocation_def stackAB_def initialState_def
        exampleScreens_def)
  have s: "screenInstances stackAB = [instA, instB]" "screenInstancePtr stackAB = 1"
    by (simp_all add: stackAB_def initialState_def)
  have n: "nestedRouteCount instB = 0" by (simp add: instB_def)
  from historyPush_nested_route [OF m] s n
  have "length (screenInstances (historyPush exactPath nestedLocation stackAB)) = 2"
    and "screenInstancePtr (historyPush exactPath nestedLocation stackAB) = 1"
    and "screenInstances (historyPush exactPath nestedLocation stackAB) ! 0 = instA"
    and "screenInstances (historyPush exactPath nestedLocation stackAB) ! 1 = instB\<lparr>nestedRouteCount := 1\<rparr>"
    by simp_all
  then have "screenInstances (historyPush exactPath nestedLocation stackAB) =
     [instA, instB\<lparr>nestedRouteCount := 1\<rparr>]"
    by (cases "screenInstances (historyPush exactPath nestedLocation stackAB)" rule: list.exhaust;
        simp add: length_Suc_conv; auto)
  with m \<open>screenInstancePtr (historyPush exactPath nestedLocation stackAB) = 1\<close>
  show ?thesis by simp
qed

section \<open>Pointer bounds\<close>

lemma pushScreen_bounds:
  assumes "ptrInBounds st"
  shows "ptrInBounds (pushScreen sid i pres as st)"
proof (cases "findIndex (\<lambda>s. id_inst s = i) (screenInstances st) = -1")
  case True
  have "nat (screenInstancePtr st + 1) \<le> length (screenInstances st)"
    using assms unfolding ptrInBounds_def by linarith
  then have "length (take (nat (screenInstancePtr st + 1)) (screenInstances st)) =
      nat (screenInstancePtr st + 1)" by simp
  then show ?thesis
    using assms
    by (simp add: pushScreen_fresh [OF True] ptrInBounds_def increaseScreenInstancePtr_def
        insertScreenInstance_sel)
next
  case False
  then show ?thesis
    using findIndex_lower [of "\<lambda>s. id_inst s = i" "screenInstances st"]
      findIndex_upper [of "\<lambda>s. id_inst s = i" "screenInstances st"]
    by (simp add: pushScreen_found [OF False] ptrInBounds_def setScreenInstancePtr_def)
qed

lemma replaceScreen_bounds:
  assumes "ptrInBounds st"
  shows "ptrInBounds (replaceScreen sid i as pres st)"
proof -
  have "nat (screenInstancePtr st - 1 + 1) \<le> length (screenInstances st)"
    using assms unfolding ptrInBounds_def by linarith
  then have "length (take (nat (screenInstancePtr st - 1 + 1)) (screenInstances st)) =
      nat (screenInstancePtr st - 1 + 1)" by (simp only: length_take min_def split: if_splits) simp
  then show ?thesis
    using assms
    unfolding ptrInBounds_def replaceScreen_def insertScreenInstance_sel length_append
    by simp
qed

lemma mapScreenInstance_bounds: "ptrInBounds st \<Longrightarrow> ptrInBounds (mapScreenInstance q f st)"
  by (simp add: ptrInBounds_def mapScreenInstance_sel)

lemma historyPush_bounds: "ptrInBounds st \<Longrightarrow> ptrInBounds (historyPush mp location st)"
  by (auto simp: historyPush_def pushScreen_bounds mapScreenInstance_bounds
      split: option.splits)

lemma forward_bounds: "ptrInBounds st \<Longrightarrow> ptrInBounds (forward mp location st)"
  by (auto simp: forward_def pushScreen_bounds mapScreenInstance_bounds split: option.splits)

lemma historyReplace_bounds: "ptrInBounds st \<Longrightarrow> ptrInBounds (historyReplace mp location st)"
  by (auto simp: historyReplace_def replaceScreen_bounds split: option.splits)

text \<open>
  The backward handler keeps the pointer within its bounds whatever the event: the pop to
  an id ends on the index that \<open>findIndex\<close> gives, which is \<open>-1\<close> or an index of the stack;
  the pop of depth 1 runs only with an entry at the pointer; a throw leaves the pointer.
\<close>

lemma backward_bounds:
  assumes inv: "ptrInBounds st"
  shows "ptrInBounds (storeAfter (backward mp location st))"
proof (cases "truthy (screenInstanceId location) = None \<or> matchScreen mp location st = None")
  case True
  show ?thesis
  proof (cases "topCountIsZero st")
    case zero: True
    then have "0 \<le> screenInstancePtr st" by (simp add: topCountIsZero_def)
    with inv show ?thesis
      by (simp add: backward_unmatched [OF True] zero popScreen_no_target ptrInBounds_def
          setScreenInstancePtr_def)
  next
    case False
    with inv show ?thesis
      by (simp add: backward_unmatched [OF True] mapScreenInstance_bounds)
  qed
next
  case False
  then obtain i sc where idt: "truthy (screenInstanceId location) = Some i"
    and ms: "matchScreen mp location st = Some sc" by auto
  let ?k = "findIndex (\<lambda>s. id_inst s = i) (screenInstances st)"
  let ?m = "mapScreenInstance (screenInstancePtr st) (\<lambda>s. s\<lparr>nestedRouteCount := 0\<rparr>) st"
  let ?r = "popScreen (screenInstancePtr st - ?k) (Some i) ?m"
  have eq: "backward mp location st = ?r" using idt ms by (rule backward_matched)
  have len: "length (screenInstances (storeAfter ?r)) = length (screenInstances st)"
    by (simp add: popScreen_store mapScreenInstance_sel)
  have "screenInstancePtr (storeAfter ?r) = ?k \<or>
        screenInstancePtr (storeAfter ?r) = screenInstancePtr st"
    using popScreen_store(4) [of "screenInstancePtr st - ?k" "Some i" ?m]
    by (simp add: mapScreenInstance_sel)
  moreover have "-1 \<le> ?k" "?k < int (length (screenInstances st))"
    by (rule findIndex_lower, rule findIndex_upper)
  ultimately show ?thesis
    using inv len unfolding eq ptrInBounds_def by auto
qed

lemma applyOp_bounds: "ptrInBounds st \<Longrightarrow> ptrInBounds (applyOp mp op st)"
  by (cases op)
    (simp_all add: pushScreen_bounds replaceScreen_bounds historyPush_bounds
      historyReplace_bounds backward_bounds forward_bounds)

lemma runOps_bounds: "ptrInBounds st \<Longrightarrow> ptrInBounds (runOps mp ops st)"
  by (induction ops arbitrary: st) (simp_all add: applyOp_bounds)

text \<open>
  Claim C4. From the initial state, with any screens registered and any close promises
  waiting, every sequence of pushes, replaces and pops leaves the pointer within
  \<open>[-1, length - 1]\<close>: the pushes and replaces with any arguments, directly or through the
  history handlers, and the pops as the backward handler makes them, the only place that
  calls \<open>popScreen\<close>.
\<close>

theorem pointer_bounds_invariant:
  "ptrInBounds
     (runOps mp ops (initialState\<lparr>screens := registry, screenInstancePromises := promises\<rparr>))"
proof -
  have "ptrInBounds (initialState\<lparr>screens := registry, screenInstancePromises := promises\<rparr>)"
    by (simp add: ptrInBounds_def initialState_def)
  then show ?thesis by (rule runOps_bounds)
qed

text \<open>
  Eight operations on the two example screens; the last one, a backward event for an id
  that is not in the stack, ends on pointer \<open>-1\<close> with two entries.
\<close>

theorem pointer_bounds_invariant_witness:
  "ptrInBounds
     (runOps exactPath exampleOps
        (initialState\<lparr>screens := exampleScreens, screenInstancePromises := Map.empty\<rparr>)) \<and>
   screenInstancePtr
     (runOps exactPath exampleOps
        (initialState\<lparr>screens := exampleScreens, screenInstancePromises := Map.empty\<rparr>)) = -1 \<and>
   length (screenInstances
     (runOps exactPath exampleOps
        (initialState\<lparr>screens := exampleScreens, screenInstancePromises := Map.empty\<rparr>))) = 2"
proof -
  have "screenInstancePtr
     (runOps exactPath exampleOps
        (initialState\<lparr>screens := exampleScreens, screenInstancePromises := Map.empty\<rparr>)) = -1 \<and>
   length (screenInstances
     (runOps exactPath exampleOps
        (initialState\<lparr>screens := exampleScreens, screenInstancePromises := Map.empty\<rparr>))) = 2"
    by (simp add: exampleOps_def initialState_def exampleScreens_def pushScreen_def
        replaceScreen_def popScreen_def lookupPromise_def objectPrototypeKeys_def
        historyPush_def forward_def backward_def matchScreen_def exactPath_def
        topCountIsZero_def locationA_def locationB_def locationGone_def nestedLocation_def
        mapScreenInstance_def insertScreenInstance_def increaseScreenInstancePtr_def
        setScreenInstancePtr_def Let_def)
  with pointer_bounds_invariant [where mp = exactPath and ops = exampleOps and registry = exampleScreens
      and promises = Map.empty]
  show ?thesis by blast
qed

section \<open>Push, then back\<close>

text \<open>
  Claim C6, as stated, fails. A replace that names A's id again leaves the stack with two
  entries of the id \<open>a\<close> and the pointer on the second. After a push of C, a backward
  event that resolves to the URL of the previous top finds the first entry of that id:
  the pointer ends on 0, not on 1 where it was before the push.
\<close>

theorem roundtrip_duplicate_ids:
  "screenInstancePtr duplicateAA = 1 \<and>
   length (screenInstances duplicateAA) = 2 \<and>
   ''c'' \<notin> id_inst ` set (screenInstances duplicateAA) \<and>
   screenInstanceId locationA = Some (id_inst (screenInstances duplicateAA ! 1)) \<and>
   screenInstancePtr (pushScreen ''detail'' ''c'' False ''/detail'' duplicateAA) = 2 \<and>
   backward exactPath locationA (pushScreen ''detail'' ''c'' False ''/detail'' duplicateAA) =
     Inr (storeAfter
            (backward exactPath locationA (pushScreen ''detail'' ''c'' False ''/detail'' duplicateAA))) \<and>
   screenInstancePtr
     (storeAfter
        (backward exactPath locationA (pushScreen ''detail'' ''c'' False ''/detail'' duplicateAA))) = 0"
  by (simp add: duplicateAA_def stackAB_def initialState_def exampleScreens_def
      replaceScreen_def pushScreen_def backward_def popScreen_def lookupPromise_def
      objectPrototypeKeys_def matchScreen_def exactPath_def locationA_def
      mapScreenInstance_def insertScreenInstance_def increaseScreenInstancePtr_def
      setScreenInstancePtr_def instA_def instB_def Let_def)

text \<open>
  Claim C6, amended. Take a stack whose ids are pairwise distinct and whose pointer \<open>p\<close> is
  on an entry, push an instance whose id is new, and let one backward event follow that
  resolves to the URL of the previous top (it names that instance's id, and the lookup of
  that id in the promise table does not end on an inherited property). Then the handler
  returns, the pointer is \<open>p\<close> again, and the previous top instance, its
  \<open>nestedRouteCount\<close> included, is as it was before the push. This holds whether or not
  the URL matches a registered screen.
\<close>

theorem push_then_backward_roundtrip:
  fixes st :: GlobalState and mp :: "string \<Rightarrow> string \<Rightarrow> bool" and location :: Location
    and sid i as :: string and pres :: bool
  defines "p \<equiv> screenInstancePtr st"
  defines "r \<equiv> backward mp location (pushScreen sid i pres as st)"
  defines "st' \<equiv> storeAfter r"
  assumes lo: "0 \<le> p" and hi: "p < int (length (screenInstances st))"
    and dist: "distinct (map id_inst (screenInstances st))"
    and fresh: "i \<notin> id_inst ` set (screenInstances st)"
    and loc: "screenInstanceId location = Some (id_inst (screenInstances st ! nat p))"
    and returns: "lookupPromise st (id_inst (screenInstances st ! nat p)) \<noteq> InheritedProperty"
  shows "r = Inr st' \<and>
         screenInstancePtr st' = p \<and>
         screenInstances st' ! nat p = screenInstances st ! nat p \<and>
         nestedRouteCount (screenInstances st' ! nat p) =
           nestedRouteCount (screenInstances st ! nat p)"
proof -
  let ?xs = "screenInstances st"
  let ?new = "\<lparr>id_inst = i, screenId = sid, present = pres, as_inst = as, nestedRouteCount = 0\<rparr>"
  let ?st1 = "pushScreen sid i pres as st"
  let ?top = "id_inst (?xs ! nat p)"
  have np: "nat p < length ?xs" using lo hi by linarith
  have k: "findIndex (\<lambda>s. id_inst s = i) ?xs = -1"
    using fresh by (auto simp: findIndex_absent)
  have st1: "?st1 = increaseScreenInstancePtr (insertScreenInstance p i sid pres as st)"
    unfolding p_def by (rule pushScreen_fresh [OF k])
  have n1: "nat (p + 1) = Suc (nat p)" using lo by simp
  have xs1: "screenInstances ?st1 = take (Suc (nat p)) ?xs @ [?new]"
    by (simp add: st1 increaseScreenInstancePtr_def insertScreenInstance_def n1)
  have ptr1: "screenInstancePtr ?st1 = p + 1"
    by (simp add: st1 increaseScreenInstancePtr_def insertScreenInstance_def p_def)
  have pr1: "screenInstancePromises ?st1 = screenInstancePromises st"
    by (simp add: st1 increaseScreenInstancePtr_def insertScreenInstance_def)
  have lentake: "length (take (Suc (nat p)) ?xs) = Suc (nat p)" using np by simp
  have len1: "length (screenInstances ?st1) = Suc (Suc (nat p))"
    using lentake by (simp add: xs1)
  have at_p: "screenInstances ?st1 ! nat p = ?xs ! nat p"
    using np by (simp add: xs1 nth_append)
  have at_new: "screenInstances ?st1 ! Suc (nat p) = ?new"
    using lentake by (simp add: xs1 nth_append)
  show ?thesis
  proof (cases "truthy (screenInstanceId location) = None \<or> matchScreen mp location ?st1 = None")
    case True
    have zero: "topCountIsZero ?st1"
      using lo len1 at_new n1 by (simp add: topCountIsZero_def ptr1)
    have "r = popScreen 1 None ?st1"
      unfolding r_def using backward_unmatched [OF True] zero by simp
    then have "r = Inr (setScreenInstancePtr (screenInstancePtr ?st1 - 1) ?st1)"
      by (simp add: popScreen_no_target)
    then show ?thesis
      unfolding st'_def using ptr1 at_p by (simp add: setScreenInstancePtr_def)
  next
    case False
    then obtain j sc where j: "truthy (screenInstanceId location) = Some j"
      and sc: "matchScreen mp location ?st1 = Some sc" by auto
    from j loc have jtop: "j = ?top" by (simp split: if_splits)
    have tj: "truthy (Some j) = Some j" using j by (rule truthy_Some)
    let ?m = "mapScreenInstance (p + 1) (\<lambda>s. s\<lparr>nestedRouteCount := 0\<rparr>) ?st1"
    have "distinct (map id_inst (screenInstances ?st1))"
    proof -
      have "distinct (map id_inst (take (Suc (nat p)) ?xs))"
        using dist by (simp add: distinct_take take_map [symmetric])
      moreover have "i \<notin> set (map id_inst (take (Suc (nat p)) ?xs))"
        using fresh by (auto dest: in_set_takeD)
      ultimately show ?thesis by (simp add: xs1)
    qed
    moreover have np1: "nat p < length (screenInstances ?st1)" using len1 by simp
    ultimately have "findIndex (\<lambda>s. id_inst s = id_inst (screenInstances ?st1 ! nat p))
        (screenInstances ?st1) = int (nat p)"
      by (rule findIndex_distinct)
    then have fi: "findIndex (\<lambda>s. id_inst s = j) (screenInstances ?st1) = p"
      using at_p jtop lo by simp
    have eq: "r = popScreen (p + 1 - p) (Some j) ?m"
      unfolding r_def using backward_matched [OF j sc] fi ptr1 by simp
    have lk: "lookupPromise ?m j \<noteq> InheritedProperty"
      using returns jtop by (simp add: lookupPromise_def mapScreenInstance_sel pr1)
    have ret: "r = Inr st'"
      unfolding st'_def eq using popScreen_returns(1) [OF tj lk] .
    have ptr: "screenInstancePtr st' = p"
      unfolding st'_def eq using popScreen_returns(2) [OF tj lk, of "p + 1 - p"]
      by (simp add: mapScreenInstance_sel ptr1)
    have "screenInstances st' = screenInstances ?m"
      unfolding st'_def eq by (simp add: popScreen_store)
    then have "screenInstances st' ! nat p = screenInstances ?st1 ! nat p"
      using np1 lo by (simp add: mapScreenInstance_nth)
    with ret ptr at_p show ?thesis by simp
  qed
qed

text \<open>With one nested route counted on B: push C, go back to B's URL.\<close>

theorem push_then_backward_roundtrip_witness:
  "(0::int) \<le> screenInstancePtr nestedAB \<and>
   screenInstancePtr nestedAB < int (length (screenInstances nestedAB)) \<and>
   distinct (map id_inst (screenInstances nestedAB)) \<and>
   ''c'' \<notin> id_inst ` set (screenInstances nestedAB) \<and>
   screenInstanceId locationB = Some (id_inst (screenInstances nestedAB ! nat (screenInstancePtr nestedAB))) \<and>
   lookupPromise nestedAB (id_inst (screenInstances nestedAB ! nat (screenInstancePtr nestedAB)))
     \<noteq> InheritedProperty \<and>
   screenInstancePtr nestedAB = 1 \<and>
   nestedRouteCount (screenInstances nestedAB ! 1) = 1 \<and>
   screenInstancePtr (pushScreen ''home'' ''c'' False ''/'' nestedAB) = 2 \<and>
   screenInstancePtr
     (storeAfter (backward exactPath locationB (pushScreen ''home'' ''c'' False ''/'' nestedAB))) = 1 \<and>
   nestedRouteCount
     (screenInstances
        (storeAfter (backward exactPath locationB (pushScreen ''home'' ''c'' False ''/'' nestedAB))) ! 1) = 1"
proof -
  have xs: "screenInstances nestedAB = [instA\<lparr>nestedRouteCount := 2\<rparr>, instB\<lparr>nestedRouteCount := 1\<rparr>]"
    and ptr: "screenInstancePtr nestedAB = 1"
    and pr: "screenInstancePromises nestedAB = Map.empty"
    by (simp_all add: nestedAB_def historyPush_def matchScreen_def exactPath_def nestedLocation_def
      locationB_def stackA_def initialState_def exampleScreens_def pushScreen_def
      mapScreenInstance_def insertScreenInstance_def increaseScreenInstancePtr_def
      setScreenInstancePtr_def instA_def instB_def Let_def)
  have a: "(0::int) \<le> screenInstancePtr nestedAB" by (simp add: ptr)
  have b: "screenInstancePtr nestedAB < int (length (screenInstances nestedAB))"
    by (simp add: ptr xs)
  have c: "distinct (map id_inst (screenInstances nestedAB))"
    by (simp add: xs instA_def instB_def)
  have d: "''c'' \<notin> id_inst ` set (screenInstances nestedAB)"
    by (simp add: xs instA_def instB_def)
  have e: "screenInstanceId locationB =
      Some (id_inst (screenInstances nestedAB ! nat (screenInstancePtr nestedAB)))"
    by (simp add: xs ptr locationB_def instB_def)
  have l: "lookupPromise nestedAB (id_inst (screenInstances nestedAB ! nat (screenInstancePtr nestedAB)))
     \<noteq> InheritedProperty"
    by (simp add: lookupPromise_def pr xs ptr instB_def objectPrototypeKeys_def)
  have f: "nestedRouteCount (screenInstances nestedAB ! 1) = 1" by (simp add: xs)
  have g: "screenInstancePtr (pushScreen ''home'' ''c'' False ''/'' nestedAB) = 2"
    by (simp add: pushScreen_def Let_def xs ptr instA_def instB_def increaseScreenInstancePtr_def
        insertScreenInstance_def)
  note r = push_then_backward_roundtrip [OF a b c d e l, of exactPath "''home''" False "''/''"]
  from r ptr have h1: "screenInstancePtr (storeAfter (backward exactPath locationB
      (pushScreen ''home'' ''c'' False ''/'' nestedAB))) = 1" by simp
  from r ptr f have h2: "nestedRouteCount (screenInstances (storeAfter (backward exactPath locationB
      (pushScreen ''home'' ''c'' False ''/'' nestedAB))) ! 1) = 1" by simp
  from a b c d e l ptr f g h1 h2 show ?thesis by blast
qed

section \<open>One navigator per page\<close>

text \<open>
  Claim C8. Activation on a page whose flag is set fails at once with the error, before
  anything is changed. Activation on a page whose flag is not set succeeds and sets the
  flag, so a second activation fails; the teardown resets the flag to false, and after it
  a new activation succeeds.
\<close>

theorem single_navigator_guard:
  "(KARROTFRAME w = Some True \<longrightarrow> activate url (Some w) = Inl OnlyOneNavigatorAllowed) \<and>
   (KARROTFRAME w \<noteq> Some True \<longrightarrow>
      (\<exists>w'. activate url (Some w) = Inr (Some w') \<and>
            KARROTFRAME w' = Some True \<and>
            historyReplaced w' = historyReplaced w @ [url] \<and>
            activate url2 (Some w') = Inl OnlyOneNavigatorAllowed \<and>
            (\<exists>w''. teardown (Some w') = Some w'' \<and> KARROTFRAME w'' = Some False \<and>
               (\<exists>w3. activate url2 (Some w'') = Inr (Some w3) \<and> KARROTFRAME w3 = Some True))))"
  by simp

text \<open>A second navigator on an active page, and a navigator started, torn down and started again.\<close>

theorem single_navigator_guard_witness:
  "KARROTFRAME activeWindow = Some True \<and>
   activate ''/?_si=b'' (Some activeWindow) = Inl OnlyOneNavigatorAllowed \<and>
   KARROTFRAME freshWindow \<noteq> Some True \<and>
   activate ''/?_si=a'' (Some freshWindow) = Inr (Some activeWindow) \<and>
   activate ''/?_si=b'' (teardown (Some activeWindow)) =
     Inr (Some \<lparr>KARROTFRAME = Some True, historyReplaced = [''/?_si=a'', ''/?_si=b'']\<rparr>)"
  using single_navigator_guard [of activeWindow "''/?_si=b''" "''/?_si=b''"]
    single_navigator_guard [of freshWindow "''/?_si=a''" "''/?_si=b''"]
  by (simp add: activeWindow_def freshWindow_def)

section \<open>Swiping disabled\<close>

lemma listener_disabled: "listener True ev = TOUCH_END"
  by (cases ev) (simp_all add: onTouchStart_def onTouchMove_def onTouchEnd_def)

lemma statesAlong_disabled:
  "s \<in> set (statesAlong horizontal True s0 evs) \<Longrightarrow> gesture s = idle"
proof (induction evs arbitrary: s0)
  case Nil
  then show ?case by simp
next
  case (Cons ev evs)
  then show ?case by (auto simp: listener_disabled Let_def)
qed

text \<open>
  Claim C9. While swiping is disabled, the touch-start and the touch-move listener
  dispatch touch-end whatever the event is; from the idle state that the effect starts the
  machine in, every state reached while handling any list of touch events is \<open>idle\<close>, so
  none of them is \<open>swipe_started\<close>.
\<close>

theorem disabled_swipe_stays_idle:
  "(\<forall>e. onTouchStart True e = TOUCH_END \<and> onTouchMove True e = TOUCH_END) \<and>
   gesture (makeState n a) = idle \<and>
   length (statesAlong horizontal True (makeState n a) evs) = length evs \<and>
   (\<forall>s \<in> set (statesAlong horizontal True (makeState n a) evs).
      gesture s = idle \<and> \<not> isSwipeStarted (gesture s))"
proof -
  have "length (statesAlong horizontal True s0 evs) = length evs" for s0
    by (induction evs arbitrary: s0) (simp_all add: Let_def)
  moreover have "\<forall>s \<in> set (statesAlong horizontal True (makeState n a) evs).
      gesture s = idle \<and> \<not> isSwipeStarted (gesture s)"
    using statesAlong_disabled by fastforce
  ultimately show ?thesis
    by (simp add: onTouchStart_def onTouchMove_def makeState_def)
qed

text \<open>
  A horizontal drag of 80: with swiping disabled every state is \<open>idle\<close>; with swiping
  enabled the same events go through \<open>touch_started\<close> and \<open>swipe_started\<close>.
\<close>

theorem disabled_swipe_stays_idle_witness:
  "map gesture (statesAlong exampleHorizontal True (makeState 3 0) exampleTouches) =
     [idle, idle, idle, idle] \<and>
   map (\<lambda>s. isSwipeStarted (gesture s))
     (statesAlong exampleHorizontal True (makeState 3 0) exampleTouches) =
     [False, False, False, False] \<and>
   map gesture (statesAlong exampleHorizontal False (makeState 3 0) exampleTouches) =
     [touch_started 0 0, swipe_started 80 \<lparr>clientX = 80, clientY = 0\<rparr>,
      swipe_started 80 \<lparr>clientX = 80, clientY = 0\<rparr>, idle]"
  using disabled_swipe_stays_idle [of 3 0 exampleHorizontal exampleTouches]
  by (simp add: exampleTouches_def exampleHorizontal_def makeState_def onTouchStart_def
      onTouchMove_def onTouchEnd_def Let_def)

end
